theory Spec2Isabelle
  imports Main
begin

section \<open>Python strings and lists\<close>

text \<open>
  A Python \<open>str\<close> is modelled as a \<open>string\<close>; one \<open>char\<close> stands for one code
  point below 256, so the two line boundaries U+2028 and U+2029 of \<open>str.splitlines\<close>
  do not occur.
\<close>

definition startswith :: "string \<Rightarrow> string \<Rightarrow> bool" where
  "startswith s p = (take (length p) s = p)"

text \<open>\<open>sub in s\<close>: \<open>sub\<close> occurs in \<open>s\<close> as a contiguous substring.\<close>

fun contains :: "string \<Rightarrow> string \<Rightarrow> bool" where
  "contains [] sub = (sub = [])"
| "contains (c # cs) sub = (startswith (c # cs) sub \<or> contains cs sub)"

definition is_linebreak :: "char \<Rightarrow> bool" where
  "is_linebreak c = (c \<in> set [CHR 0x0A, CHR 0x0B, CHR 0x0C, CHR 0x0D,
                               CHR 0x1C, CHR 0x1D, CHR 0x1E, CHR 0x85])"

text \<open>
  \<open>str.splitlines()\<close>: the text is cut at every line boundary, \<open>\r\n\<close> counting as
  one, and no empty last line is produced for a text that ends with a boundary. The first
  argument is the line being collected, reversed.
\<close>

fun splitlines_from :: "string \<Rightarrow> string \<Rightarrow> string list" where
  "splitlines_from cur [] = (if cur = [] then [] else [rev cur])"
| "splitlines_from cur (c # cs) =
     (if c = CHR 0x0D \<and> cs \<noteq> [] \<and> hd cs = CHR 0x0A
        then rev cur # splitlines_from [] (tl cs)
      else if is_linebreak c then rev cur # splitlines_from [] cs
      else splitlines_from (c # cur) cs)"

definition splitlines :: "string \<Rightarrow> string list" where
  "splitlines s = splitlines_from [] s"

text \<open>\<open>sep.join(xs)\<close>.\<close>

fun join :: "string \<Rightarrow> string list \<Rightarrow> string" where
  "join sep [] = []"
| "join sep [x] = x"
| "join sep (x # y # ys) = x @ sep @ join sep (y # ys)"

text \<open>
  Python slices \<open>xs[:i]\<close> and \<open>xs[j:]\<close>: a negative index counts from the end, and
  every index is clamped to the range of the list.
\<close>

definition slice_index :: "'a list \<Rightarrow> int \<Rightarrow> nat" where
  "slice_index xs i =
     (if i < 0 then nat (max 0 (int (length xs) + i)) else min (nat i) (length xs))"

definition slice_to :: "'a list \<Rightarrow> int \<Rightarrow> 'a list" where
  "slice_to xs i = take (slice_index xs i) xs"

definition slice_from :: "'a list \<Rightarrow> int \<Rightarrow> 'a list" where
  "slice_from xs j = drop (slice_index xs j) xs"

section \<open>Hunks and their application (vcs/diff_file.py)\<close>

text \<open>
  The dictionary built by \<open>_parse_hunks\<close> for one hunk. Its four numbers are read
  from \<open>\d+\<close> groups by \<open>int\<close>, so they are natural numbers; the index arithmetic
  on them is done on integers, where \<open>old_start - 1\<close> can be \<open>-1\<close>.
\<close>

record hunk =
  old_start :: nat
  old_count :: nat
  new_start :: nat
  new_count :: nat
  lines :: "string list"

text \<open>
  The loop of \<open>_forward_apply_hunk\<close> over \<open>hunk["lines"]\<close>: a \<open>+\<close> line and a context
  line are appended without their first character, a \<open>-\<close> line and a backslash line are
  skipped. A line that starts with none of the four appends nothing.
\<close>

fun new_section :: "string list \<Rightarrow> string list" where
  "new_section [] = []"
| "new_section (hunk_line # rest) =
     (if startswith hunk_line ''+'' then drop 1 hunk_line # new_section rest
      else if startswith hunk_line ''-'' then new_section rest
      else if startswith hunk_line '' '' then drop 1 hunk_line # new_section rest
      else if startswith hunk_line [CHR 0x5C] then new_section rest
      else new_section rest)"

definition forward_apply_hunk :: "string list \<Rightarrow> hunk \<Rightarrow> string list" where
  "forward_apply_hunk ls h =
     (let old_start_idx = int (old_start h) - 1;
          old_end_idx = old_start_idx + int (old_count h)
      in slice_to ls old_start_idx @ new_section (lines h) @ slice_from ls old_end_idx)"

text \<open>The loop of \<open>_reverse_apply_hunk\<close>: the roles of \<open>+\<close> and \<open>-\<close> are exchanged.\<close>

fun old_section :: "string list \<Rightarrow> string list" where
  "old_section [] = []"
| "old_section (hunk_line # rest) =
     (if startswith hunk_line ''-'' then drop 1 hunk_line # old_section rest
      else if startswith hunk_line ''+'' then old_section rest
      else if startswith hunk_line '' '' then drop 1 hunk_line # old_section rest
      else if startswith hunk_line [CHR 0x5C] then old_section rest
      else old_section rest)"

definition reverse_apply_hunk :: "string list \<Rightarrow> hunk \<Rightarrow> string list" where
  "reverse_apply_hunk ls h =
     (let new_start_idx = int (new_start h) - 1;
          new_end_idx = new_start_idx + int (new_count h)
      in slice_to ls new_start_idx @ old_section (lines h) @ slice_from ls new_end_idx)"

text \<open>
  The loops \<open>for hunk in reversed(hunks): current_lines = ..._apply_hunk(current_lines, hunk)\<close>
  of \<open>_forward_apply_diff\<close> and \<open>_reverse_apply_diff\<close>.
\<close>

definition forward_apply_hunks :: "hunk list \<Rightarrow> string list \<Rightarrow> string list" where
  "forward_apply_hunks hunks current_lines = foldl forward_apply_hunk current_lines (rev hunks)"

definition reverse_apply_hunks :: "hunk list \<Rightarrow> string list \<Rightarrow> string list" where
  "reverse_apply_hunks hunks current_lines = foldl reverse_apply_hunk current_lines (rev hunks)"

subsection \<open>Parsing the hunks of one file's diff section\<close>

definition is_digit :: "char \<Rightarrow> bool" where
  "is_digit c = (48 \<le> (of_char c :: nat) \<and> (of_char c :: nat) \<le> 57)"

text \<open>\<open>int(s)\<close> for a string of decimal digits.\<close>

definition int_of_digits :: "string \<Rightarrow> nat" where
  "int_of_digits s = foldl (\<lambda>n c. 10 * n + (of_char c - 48)) 0 s"

text \<open>\<open>\d+\<close> at the start of a string: the digits and the rest.\<close>

definition digits_prefix :: "string \<Rightarrow> (string \<times> string) option" where
  "digits_prefix s =
     (let d = takeWhile is_digit s
      in if d = [] then None else Some (d, dropWhile is_digit s))"

text \<open>The optional group \<open>(?:,(\d+))?\<close>: the group if it is present, and the rest.\<close>

definition opt_count :: "string \<Rightarrow> string option \<times> string" where
  "opt_count s =
     (if startswith s '','' then
        (case digits_prefix (drop 1 s) of
           Some (d, r) \<Rightarrow> (Some d, r)
         | None \<Rightarrow> (None, s))
      else (None, s))"

text \<open>
  \<open>re.match(hunk_pattern, line)\<close> with
  \<open>^@@ -(?P<old_start>\d+)(?:,(?P<old_count>\d+))? \+(?P<new_start>\d+)(?:,(?P<new_count>\d+))? @@\<close>:
  the four groups of a match.
\<close>

definition hunk_pattern ::
  "string \<Rightarrow> (string \<times> string option \<times> string \<times> string option) option" where
  "hunk_pattern line =
     (if \<not> startswith line ''@@ -'' then None
      else case digits_prefix (drop 4 line) of
        None \<Rightarrow> None
      | Some (os, r1) \<Rightarrow>
          (case opt_count r1 of (oc, r2) \<Rightarrow>
             if \<not> startswith r2 '' +'' then None
             else case digits_prefix (drop 2 r2) of
               None \<Rightarrow> None
             | Some (ns, r3) \<Rightarrow>
                 (case opt_count r3 of (nc, r4) \<Rightarrow>
                    if startswith r4 '' @@'' then Some (os, oc, ns, nc) else None)))"

text \<open>\<open>int(match.group(g) or 1)\<close>.\<close>

definition count_or_1 :: "string option \<Rightarrow> nat" where
  "count_or_1 g = (case g of None \<Rightarrow> 1 | Some d \<Rightarrow> int_of_digits d)"

definition new_hunk :: "string \<times> string option \<times> string \<times> string option \<Rightarrow> hunk" where
  "new_hunk m =
     (case m of (os, oc, ns, nc) \<Rightarrow>
        \<lparr>old_start = int_of_digits os, old_count = count_or_1 oc,
         new_start = int_of_digits ns, new_count = count_or_1 nc, lines = []\<rparr>)"

text \<open>\<open>line.startswith(("+", "-", " ", "\\"))\<close>.\<close>

definition is_hunk_content :: "string \<Rightarrow> bool" where
  "is_hunk_content line =
     (startswith line ''+'' \<or> startswith line ''-'' \<or> startswith line '' ''
      \<or> startswith line [CHR 0x5C])"

text \<open>\<open>if current_hunk is not None: hunks.append(current_hunk)\<close>.\<close>

definition flush :: "hunk list \<Rightarrow> hunk option \<Rightarrow> hunk list" where
  "flush hunks current_hunk =
     (case current_hunk of None \<Rightarrow> hunks | Some h \<Rightarrow> hunks @ [h])"

text \<open>The loop of \<open>_parse_hunks\<close>, with its two variables \<open>hunks\<close> and \<open>current_hunk\<close>.\<close>

fun parse_hunks_loop :: "hunk list \<Rightarrow> hunk option \<Rightarrow> string list \<Rightarrow> hunk list" where
  "parse_hunks_loop hunks current_hunk [] = flush hunks current_hunk"
| "parse_hunks_loop hunks current_hunk (line # rest) =
     (case hunk_pattern line of
        Some m \<Rightarrow> parse_hunks_loop (flush hunks current_hunk) (Some (new_hunk m)) rest
      | None \<Rightarrow>
          (case current_hunk of
             None \<Rightarrow> parse_hunks_loop hunks None rest
           | Some h \<Rightarrow>
               if is_hunk_content line
                 then parse_hunks_loop hunks (Some (h\<lparr>lines := lines h @ [line]\<rparr>)) rest
               else parse_hunks_loop hunks (Some h) rest))"

definition parse_hunks :: "string \<Rightarrow> hunk list" where
  "parse_hunks diff_section = parse_hunks_loop [] None (splitlines diff_section)"

section \<open>Paths, change lists and the diff-file client (vcs/diff_file.py)\<close>

text \<open>\<open>s.split(sep)\<close> for a separator of one character.\<close>

fun split_from :: "char \<Rightarrow> string \<Rightarrow> string \<Rightarrow> string list" where
  "split_from sep cur [] = [rev cur]"
| "split_from sep cur (c # cs) =
     (if c = sep then rev cur # split_from sep [] cs else split_from sep (c # cur) cs)"

text \<open>
  \<open>pathlib.Path\<close> on a POSIX system: a path is its root (\<open>/\<close>, \<open>//\<close> for exactly two
  leading slashes, or none) and its parts; empty parts and \<open>.\<close> parts are dropped when a
  string is parsed.
\<close>

datatype Path = Path (anchor: string) (parts: "string list")

definition path_of :: "string \<Rightarrow> Path" where
  "path_of s =
     Path (if startswith s ''//'' \<and> \<not> startswith s ''///'' then ''//''
           else if startswith s ''/'' then ''/'' else [])
          (filter (\<lambda>x. x \<noteq> [] \<and> x \<noteq> ''.'') (split_from CHR ''/'' [] s))"

text \<open>\<open>str(path)\<close>.\<close>

definition str_of :: "Path \<Rightarrow> string" where
  "str_of p =
     (if anchor p = [] \<and> parts p = [] then ''.'' else anchor p @ join ''/'' (parts p))"

definition is_absolute :: "Path \<Rightarrow> bool" where
  "is_absolute p = (anchor p \<noteq> [])"

text \<open>\<open>a / b\<close>.\<close>

definition path_join :: "Path \<Rightarrow> Path \<Rightarrow> Path" where
  "path_join a b = (if is_absolute b then b else Path (anchor a) (parts a @ parts b))"

datatype error = ValueError | FileNotFoundError

text \<open>\<open>p.relative_to(r)\<close> for an absolute \<open>p\<close>: ValueError unless \<open>p\<close> lies under \<open>r\<close>.\<close>

definition relative_to :: "Path \<Rightarrow> Path \<Rightarrow> error + Path" where
  "relative_to p r =
     (if anchor p = anchor r \<and> take (length (parts r)) (parts p) = parts r
        then Inr (Path [] (drop (length (parts r)) (parts p)))
      else Inl ValueError)"

text \<open>\<open>s.replace("\\", "/")\<close>.\<close>

definition replace_backslash :: "string \<Rightarrow> string" where
  "replace_backslash s = map (\<lambda>c. if c = CHR 0x5C then CHR ''/'' else c) s"

datatype ChangelistItemAction = ADDED | MODIFIED | DELETED

text \<open>
  Modelled from the spec: \<open>ChangelistItem\<close> and \<open>Changelist\<close> of \<open>binaryrts.vcs.base\<close>,
  which is not among the sources. A \<open>ChangelistItem\<close> has a file path and an action, and
  two items are equal when both are equal; a \<open>Changelist\<close> holds the list \<open>items\<close>.
\<close>

record ChangelistItem =
  filepath :: Path
  action :: ChangelistItemAction

type_synonym Changelist = "ChangelistItem list"

text \<open>
  What a run reads from outside: the files on disk (\<open>None\<close> for a path that does not
  exist) and the order in which Python enumerates a set of items, which the language
  leaves open; \<open>set_order\<close> is applied to the items in the order of their insertion.
\<close>

record env =
  disk :: "Path \<Rightarrow> string option"
  set_order :: "ChangelistItem list \<Rightarrow> ChangelistItem list"

text \<open>
  The fields of a \<open>DiffFileClient\<close>; \<open>p_diff_content\<close>, \<open>p_changelist\<close> and
  \<open>p_file_diffs\<close> are \<open>_diff_content\<close>, \<open>_changelist\<close> and \<open>_file_diffs\<close>.
\<close>

record DiffFileClient =
  root :: Path
  diff_file :: "Path option"
  repo_state :: string
  p_diff_content :: "string option"
  p_changelist :: "Changelist option"
  p_file_diffs :: "string \<rightharpoonup> string"

text \<open>The constructor: one of \<open>diff_file\<close> and \<open>diff_content\<close> must be given.\<close>

definition init :: "Path \<Rightarrow> Path option \<Rightarrow> string \<Rightarrow> string option \<Rightarrow> error + DiffFileClient" where
  "init r df rs dc =
     (if df = None \<and> dc = None then Inl ValueError
      else Inr \<lparr>root = r, diff_file = df, repo_state = rs, p_diff_content = dc,
                p_changelist = None, p_file_diffs = Map.empty\<rparr>)"

text \<open>The property \<open>diff_content\<close>: the text of the diff, read once.\<close>

definition diff_content :: "env \<Rightarrow> DiffFileClient \<Rightarrow> error + (string \<times> DiffFileClient)" where
  "diff_content e c =
     (case p_diff_content c of
        Some t \<Rightarrow> Inr (t, c)
      | None \<Rightarrow>
          (case diff_file c of
             None \<Rightarrow> Inl ValueError
           | Some f \<Rightarrow>
               (case disk e f of
                  None \<Rightarrow> Inl FileNotFoundError
                | Some t \<Rightarrow> Inr (t, c\<lparr>p_diff_content := Some t\<rparr>))))"

text \<open>
  \<open>re.search(diff_pattern, line)\<close> with \<open>^diff --git a/(?P<filepath>.*) b/.*$\<close>: the
  group \<open>filepath\<close> of a match. A dot does not match a newline and \<open>$\<close> also matches
  before a newline that ends the string; the first \<open>.*\<close> is greedy, so the group ends at
  the last \<open> b/\<close>.
\<close>

fun last_b_slash :: "string \<Rightarrow> string \<Rightarrow> string option" where
  "last_b_slash pre [] = None"
| "last_b_slash pre (c # cs) =
     (case last_b_slash (c # pre) cs of
        Some fp \<Rightarrow> Some fp
      | None \<Rightarrow> if startswith (c # cs) '' b/'' then Some (rev pre) else None)"

definition diff_pattern :: "string \<Rightarrow> string option" where
  "diff_pattern line =
     (if \<not> startswith line ''diff --git a/'' then None
      else let r = drop 13 line;
               r' = (if r \<noteq> [] \<and> last r = CHR 0x0A then butlast r else r)
           in if CHR 0x0A \<in> set r' then None else last_b_slash [] r')"

text \<open>\<open>items.add(item)\<close> on the set of items, kept in the order of insertion.\<close>

definition set_add :: "ChangelistItem \<Rightarrow> ChangelistItem list \<Rightarrow> ChangelistItem list" where
  "set_add x xs = (if x \<in> set xs then xs else xs @ [x])"

text \<open>\<open>if current_file is not None: self._file_diffs[current_file] = "\n".join(current_diff_lines)\<close>.\<close>

definition save_diff ::
  "string option \<Rightarrow> string list \<Rightarrow> (string \<rightharpoonup> string) \<Rightarrow> (string \<rightharpoonup> string)" where
  "save_diff current_file current_diff_lines fd =
     (case current_file of
        None \<Rightarrow> fd
      | Some f \<Rightarrow> fd(f \<mapsto> join [CHR 0x0A] current_diff_lines))"

text \<open>The action read from the line after a header, \<open>lines[idx + 1]\<close>, if there is one.\<close>

definition action_after :: "string list \<Rightarrow> ChangelistItemAction" where
  "action_after rest =
     (case rest of
        [] \<Rightarrow> MODIFIED
      | next_line # _ \<Rightarrow>
          if contains next_line ''new file mode'' then ADDED
          else if contains next_line ''deleted file mode'' then DELETED
          else MODIFIED)"

text \<open>
  The loop of \<open>get_diff\<close> over the lines of the diff, with its variables \<open>items\<close>,
  \<open>current_file\<close>, \<open>current_diff_lines\<close> and the dictionary \<open>_file_diffs\<close>.
\<close>

fun get_diff_loop ::
  "ChangelistItem list \<Rightarrow> string option \<Rightarrow> string list \<Rightarrow> (string \<rightharpoonup> string) \<Rightarrow> string list
   \<Rightarrow> ChangelistItem list \<times> string option \<times> string list \<times> (string \<rightharpoonup> string)" where
  "get_diff_loop items current_file current_diff_lines fd [] =
     (items, current_file, current_diff_lines, fd)"
| "get_diff_loop items current_file current_diff_lines fd (line # rest) =
     (if startswith line ''diff --git'' then
        (let fd' = save_diff current_file current_diff_lines fd
         in case diff_pattern line of
              Some fp \<Rightarrow>
                get_diff_loop
                  (set_add \<lparr>filepath = path_of fp, action = action_after rest\<rparr> items)
                  (Some fp) [line] fd' rest
            | None \<Rightarrow> get_diff_loop items current_file current_diff_lines fd' rest)
      else if current_file \<noteq> None then
        get_diff_loop items current_file (current_diff_lines @ [line]) fd rest
      else get_diff_loop items current_file current_diff_lines fd rest)"

definition get_diff :: "env \<Rightarrow> DiffFileClient \<Rightarrow> error + (Changelist \<times> DiffFileClient)" where
  "get_diff e c =
     (case p_changelist c of
        Some cl \<Rightarrow> Inr (cl, c)
      | None \<Rightarrow>
          (case diff_content e c of
             Inl err \<Rightarrow> Inl err
           | Inr (t, c1) \<Rightarrow>
               (case get_diff_loop [] None [] (p_file_diffs c1) (splitlines t) of
                  (items, current_file, current_diff_lines, fd) \<Rightarrow>
                    let cl = set_order e items
                    in Inr (cl, c1\<lparr>p_changelist := Some cl,
                                   p_file_diffs := save_diff current_file current_diff_lines fd\<rparr>))))"

subsection \<open>Content of a file at the old and at the new side\<close>

definition read_file_from_disk :: "env \<Rightarrow> DiffFileClient \<Rightarrow> Path \<Rightarrow> string" where
  "read_file_from_disk e c fp =
     (case disk e (path_join (root c) fp) of
        Some t \<Rightarrow> t
      | None \<Rightarrow> [])"

text \<open>
  The loop of \<open>_reconstruct_added_file\<close> over the lines of the diff section, with its
  flag \<open>in_hunk\<close>: the lines appended to \<open>lines\<close>.
\<close>

fun added_lines :: "bool \<Rightarrow> string list \<Rightarrow> string list" where
  "added_lines in_hunk [] = []"
| "added_lines in_hunk (line # rest) =
     (if startswith line ''@@'' then added_lines True rest
      else if in_hunk then
        (if startswith line ''+'' then drop 1 line # added_lines in_hunk rest
         else if startswith line ''-'' then added_lines in_hunk rest
         else if startswith line '' '' then drop 1 line # added_lines in_hunk rest
         else if startswith line [CHR 0x5C] then added_lines in_hunk rest
         else added_lines in_hunk rest)
      else added_lines in_hunk rest)"

definition reconstruct_added_file :: "DiffFileClient \<Rightarrow> string \<Rightarrow> string" where
  "reconstruct_added_file c fp =
     (case p_file_diffs c fp of
        None \<Rightarrow> []
      | Some diff_section \<Rightarrow> join [CHR 0x0A] (added_lines False (splitlines diff_section)))"

text \<open>The loop of \<open>_reconstruct_deleted_file\<close>.\<close>

fun deleted_lines :: "bool \<Rightarrow> string list \<Rightarrow> string list" where
  "deleted_lines in_hunk [] = []"
| "deleted_lines in_hunk (line # rest) =
     (if startswith line ''@@'' then deleted_lines True rest
      else if in_hunk then
        (if startswith line ''-'' then drop 1 line # deleted_lines in_hunk rest
         else if startswith line ''+'' then deleted_lines in_hunk rest
         else if startswith line '' '' then drop 1 line # deleted_lines in_hunk rest
         else if startswith line [CHR 0x5C] then deleted_lines in_hunk rest
         else deleted_lines in_hunk rest)
      else deleted_lines in_hunk rest)"

definition reconstruct_deleted_file :: "DiffFileClient \<Rightarrow> string \<Rightarrow> string" where
  "reconstruct_deleted_file c fp =
     (case p_file_diffs c fp of
        None \<Rightarrow> []
      | Some diff_section \<Rightarrow> join [CHR 0x0A] (deleted_lines False (splitlines diff_section)))"

definition forward_apply_diff :: "DiffFileClient \<Rightarrow> string \<Rightarrow> string \<Rightarrow> string" where
  "forward_apply_diff c fp current_content =
     (case p_file_diffs c fp of
        None \<Rightarrow> current_content
      | Some diff_section \<Rightarrow>
          join [CHR 0x0A]
            (forward_apply_hunks (parse_hunks diff_section) (splitlines current_content)))"

definition reverse_apply_diff :: "DiffFileClient \<Rightarrow> string \<Rightarrow> string \<Rightarrow> string" where
  "reverse_apply_diff c fp current_content =
     (case p_file_diffs c fp of
        None \<Rightarrow> current_content
      | Some diff_section \<Rightarrow>
          join [CHR 0x0A]
            (reverse_apply_hunks (parse_hunks diff_section) (splitlines current_content)))"

text \<open>
  The search \<open>for ci in self._changelist.items: if str(ci.filepath).replace("\\", "/") == filepath\<close>:
  the first item of the change list with that path.
\<close>

definition find_item :: "Changelist \<Rightarrow> string \<Rightarrow> ChangelistItem option" where
  "find_item cl fp = find (\<lambda>ci. replace_backslash (str_of (filepath ci)) = fp) cl"

definition get_new_file_content ::
  "env \<Rightarrow> DiffFileClient \<Rightarrow> string \<Rightarrow> error + (string \<times> DiffFileClient)" where
  "get_new_file_content e c fp =
     (case get_diff e c of
        Inl err \<Rightarrow> Inl err
      | Inr (cl, c') \<Rightarrow>
          (case find_item cl fp of
             None \<Rightarrow> Inr (read_file_from_disk e c' (path_of fp), c')
           | Some item \<Rightarrow>
               if action item = DELETED then Inr ([], c')
               else if action item = ADDED then Inr (reconstruct_added_file c' fp, c')
               else
                 (let current_content = read_file_from_disk e c' (path_of fp)
                  in if current_content = [] then Inr ([], c')
                     else Inr (forward_apply_diff c' fp current_content, c'))))"

definition get_old_file_content ::
  "env \<Rightarrow> DiffFileClient \<Rightarrow> string \<Rightarrow> error + (string \<times> DiffFileClient)" where
  "get_old_file_content e c fp =
     (case get_diff e c of
        Inl err \<Rightarrow> Inl err
      | Inr (cl, c') \<Rightarrow>
          (case find_item cl fp of
             None \<Rightarrow>
               (case disk e (path_join (root c') (path_of fp)) of
                  Some t \<Rightarrow> Inr (t, c')
                | None \<Rightarrow> Inr ([], c'))
           | Some item \<Rightarrow>
               if action item = ADDED then Inr ([], c')
               else if action item = DELETED then Inr (reconstruct_deleted_file c' fp, c')
               else
                 (case disk e (path_join (root c') (path_of fp)) of
                    None \<Rightarrow> Inr ([], c')
                  | Some current_content \<Rightarrow>
                      Inr (reverse_apply_diff c' fp current_content, c'))))"

text \<open>\<open>revision.lower()\<close> on code points below 256.\<close>

definition lower_char :: "char \<Rightarrow> char" where
  "lower_char ch =
     (let n = (of_char ch :: nat)
      in if (65 \<le> n \<and> n \<le> 90) \<or> (192 \<le> n \<and> n \<le> 222 \<and> n \<noteq> 215)
         then char_of (n + 32) else ch)"

definition lower :: "string \<Rightarrow> string" where
  "lower s = map lower_char s"

definition is_new_revision :: "string \<Rightarrow> bool" where
  "is_new_revision revision = (lower revision \<in> set [''head'', ''new'', ''to'', []])"

text \<open>
  \<open>get_file_content_at_revision\<close>: an absolute path is made relative to the root first,
  which raises ValueError for a path outside the root.
\<close>

definition get_file_content_at_revision ::
  "env \<Rightarrow> DiffFileClient \<Rightarrow> string \<Rightarrow> Path \<Rightarrow> error + (string \<times> DiffFileClient)" where
  "get_file_content_at_revision e c revision fp0 =
     (case (if is_absolute fp0 then relative_to fp0 (root c) else Inr fp0) of
        Inl err \<Rightarrow> Inl err
      | Inr fp \<Rightarrow>
          (let filepath_str = replace_backslash (str_of fp)
           in if repo_state c = ''new'' then
                (if is_new_revision revision then Inr (read_file_from_disk e c fp, c)
                 else get_old_file_content e c filepath_str)
              else
                (if is_new_revision revision then get_new_file_content e c filepath_str
                 else Inr (read_file_from_disk e c fp, c))))"

section \<open>Conversion of test identifiers to filters (commands/utils.py)\<close>









section \<open>Selection runs and their fallback (commands/select.py)\<close>

definition INCLUDED_TESTS_FILE :: string where "INCLUDED_TESTS_FILE = ''included.txt''"
definition EXCLUDED_TESTS_FILE :: string where "EXCLUDED_TESTS_FILE = ''excluded.txt''"
definition SELECTION_CAUSES_FILE :: string where "SELECTION_CAUSES_FILE = ''selection-causes.txt''"
definition EVENT_LOG :: string where "EVENT_LOG = ''event.log''"
definition RTS_START_EVENT :: string where "RTS_START_EVENT = ''START_BINARY_RTS_SELECTION''"
definition RTS_END_EVENT :: string where "RTS_END_EVENT = ''END_BINARY_RTS_SELECTION''"

text \<open>
  An instance of \<open>Exception\<close> with its message: what \<open>except Exception\<close> catches.
  \<open>KeyboardInterrupt\<close> and \<open>SystemExit\<close>, which end the process and are not instances
  of \<open>Exception\<close>, are not modelled.
\<close>

datatype exception = Exception string

text \<open>What a file of the output directory holds: a text, or the document of a \<open>json.dump\<close>.\<close>

datatype json = JString string | JArray "json list" | JObject "(string \<times> json) list"

datatype content = Text string | Json json

text \<open>
  The output files and the events appended to the event logs. Creating a directory,
  writing a file and appending an event are taken to succeed.
\<close>

record output_state =
  files :: "Path \<rightharpoonup> content"
  events :: "(Path \<times> string) list"

definition write_file :: "Path \<Rightarrow> content \<Rightarrow> output_state \<Rightarrow> output_state" where
  "write_file p t s = s\<lparr>files := (files s)(p \<mapsto> t)\<rparr>"

definition append_event :: "string \<Rightarrow> Path \<Rightarrow> output_state \<Rightarrow> output_state" where
  "append_event name log_file s = s\<lparr>events := events s @ [(log_file, name)]\<rparr>"

text \<open>The options shared by the commands; \<open>opt_output\<close> is the field \<open>output\<close>.\<close>

record SelectCommonOptions =
  opt_output :: Path
  from_revision :: string
  to_revision :: string
  includes_regex :: string
  excludes_regex :: string
  repo_root :: Path
  simple_output :: bool

record RTSConfiguration =
  name :: string
  file_level :: bool
  scope_analysis :: bool
  overload_analysis :: bool
  virtual_analysis :: bool
  non_functional_analysis :: bool
  non_functional_retest_all :: bool
  non_functional_analysis_depth :: int

text \<open>
  The code that \<open>select.py\<close> calls and that is not among the sources, taken as
  parameters: the check of a file extension, the loaders of the tables, the constructors of
  the three selection algorithms (the algorithm built, or the exception raised),
  \<open>select_tests\<close> of an algorithm with the two revisions (the triple of included tests,
  excluded tests and selection causes, or the exception raised), \<open>format_test_list\<close>
  applied to \<open>list(tests)\<close>, the document that \<open>json.dump\<close> writes for the selection
  causes (or the exception it raises and the text written before it), and the value of
  \<open>SelectionCause.SELECTION_FAILURE\<close>.
\<close>

record ('lt, 'tt, 'ft, 'a, 't, 'c) collaborators =
  has_ext :: "Path \<Rightarrow> string list \<Rightarrow> bool"
  lookup_from_csv :: "Path \<Rightarrow> Path \<Rightarrow> exception + 'lt"
  lookup_from_pickle :: "Path \<Rightarrow> Path \<Rightarrow> exception + 'lt"
  traces_from_csv :: "Path \<Rightarrow> exception + 'tt"
  traces_from_pickle :: "Path \<Rightarrow> exception + 'tt"
  file_traces_from_csv :: "Path \<Rightarrow> exception + 'ft"
  file_traces_from_pickle :: "Path \<Rightarrow> exception + 'ft"
  CppFileLevelRTS :: "'lt \<Rightarrow> 'tt \<Rightarrow> Path \<Rightarrow> SelectCommonOptions \<Rightarrow> exception + 'a"
  CppFunctionLevelRTS ::
    "'lt \<Rightarrow> 'tt \<Rightarrow> Path \<Rightarrow> SelectCommonOptions \<Rightarrow> RTSConfiguration \<Rightarrow> exception + 'a"
  SyscallFileLevelRTS :: "'ft \<Rightarrow> Path \<Rightarrow> SelectCommonOptions \<Rightarrow> exception + 'a"
  select_tests :: "'a \<Rightarrow> string \<Rightarrow> string \<Rightarrow> exception + ('t \<times> 't \<times> 'c)"
  format_test_list :: "'t \<Rightarrow> bool \<Rightarrow> exception + string"
  json_dump :: "'c \<Rightarrow> (exception \<times> string) + json"
  SELECTION_FAILURE :: string

text \<open>
  The statements of a \<open>try\<close> block after the call of \<open>select_tests\<close>: the three files
  are written in turn. The result is the state reached and the exception raised, if any;
  \<open>open("w+")\<close> has emptied the causes file before \<open>json.dump\<close> writes to it.
\<close>

definition write_results ::
  "('lt, 'tt, 'ft, 'a, 't, 'c) collaborators \<Rightarrow> Path \<Rightarrow> bool \<Rightarrow> 't \<times> 't \<times> 'c \<Rightarrow> output_state
   \<Rightarrow> output_state \<times> exception option" where
  "write_results k dir simple r s =
     (case r of (included_tests, excluded_tests, selection_causes) \<Rightarrow>
        (case format_test_list k included_tests simple of
           Inl ex \<Rightarrow> (s, Some ex)
         | Inr t1 \<Rightarrow>
             (let s1 = write_file (path_join dir (path_of INCLUDED_TESTS_FILE)) (Text t1) s
              in case format_test_list k excluded_tests simple of
                   Inl ex \<Rightarrow> (s1, Some ex)
                 | Inr t2 \<Rightarrow>
                     (let s2 = write_file (path_join dir (path_of EXCLUDED_TESTS_FILE)) (Text t2) s1
                      in case json_dump k selection_causes of
                           Inl (ex, written) \<Rightarrow>
                             (write_file (path_join dir (path_of SELECTION_CAUSES_FILE))
                                (Text written) s2, Some ex)
                         | Inr j \<Rightarrow>
                             (write_file (path_join dir (path_of SELECTION_CAUSES_FILE))
                                (Json j) s2, None)))))"

text \<open>The handler \<open>except Exception\<close> of both runs.\<close>

definition fallback ::
  "('lt, 'tt, 'ft, 'a, 't, 'c) collaborators \<Rightarrow> Path \<Rightarrow> output_state \<Rightarrow> output_state" where
  "fallback k dir s =
     write_file (path_join dir (path_of SELECTION_CAUSES_FILE))
       (Json (JObject [(''*'', JArray [JString (SELECTION_FAILURE k)])]))
       (write_file (path_join dir (path_of EXCLUDED_TESTS_FILE)) (Text [])
          (write_file (path_join dir (path_of INCLUDED_TESTS_FILE)) (Text (''*'' @ [CHR 0x0A])) s))"

text \<open>\<open>config.name or 'default'\<close>.\<close>

definition name_or_default :: "RTSConfiguration \<Rightarrow> string" where
  "name_or_default config = (if name config = [] then ''default'' else name config)"

text \<open>\<open>output_dir\<close> of \<open>_run_rts\<close>: \<open>opts.output / config.name\<close>.\<close>

definition output_dir :: "SelectCommonOptions \<Rightarrow> RTSConfiguration \<Rightarrow> Path" where
  "output_dir opts config = path_join (opt_output opts) (path_of (name config))"

text \<open>
  The first statements of the \<open>try\<close> block of \<open>_run_rts\<close>: the algorithm of the
  configuration is built and its \<open>select_tests\<close> is called.
\<close>

definition run_rts_select ::
  "('lt, 'tt, 'ft, 'a, 't, 'c) collaborators \<Rightarrow> SelectCommonOptions \<Rightarrow> 'lt \<Rightarrow> 'tt \<Rightarrow> RTSConfiguration
   \<Rightarrow> exception + ('t \<times> 't \<times> 'c)" where
  "run_rts_select k opts function_lookup_table test_function_traces config =
     (case (if file_level config
            then CppFileLevelRTS k function_lookup_table test_function_traces
                   (output_dir opts config) opts
            else CppFunctionLevelRTS k function_lookup_table test_function_traces
                   (output_dir opts config) opts config) of
        Inl ex \<Rightarrow> Inl ex
      | Inr rts_algo \<Rightarrow> select_tests k rts_algo (from_revision opts) (to_revision opts))"

text \<open>The function \<open>_run_rts\<close> inside \<open>cpp\<close>, with the two tables that \<open>cpp\<close> has loaded.\<close>

definition run_rts ::
  "('lt, 'tt, 'ft, 'a, 't, 'c) collaborators \<Rightarrow> SelectCommonOptions \<Rightarrow> 'lt \<Rightarrow> 'tt \<Rightarrow> RTSConfiguration
   \<Rightarrow> output_state \<Rightarrow> output_state" where
  "run_rts k opts function_lookup_table test_function_traces config s =
     (let s0 = append_event (RTS_START_EVENT @ ''_'' @ name_or_default config)
                 (path_join (output_dir opts config) (path_of EVENT_LOG)) s;
          tried =
            (case run_rts_select k opts function_lookup_table test_function_traces config of
               Inl ex \<Rightarrow> (s0, Some ex)
             | Inr r \<Rightarrow> write_results k (output_dir opts config) (simple_output opts) r s0);
          s1 = (case snd tried of
                  Some ex \<Rightarrow> fallback k (output_dir opts config) (fst tried)
                | None \<Rightarrow> fst tried)
      in append_event (RTS_END_EVENT @ ''_'' @ name_or_default config)
           (path_join (output_dir opts config) (path_of EVENT_LOG)) s1)"

text \<open>The configurations of the evaluation mode of \<open>cpp\<close>, in their order.\<close>

definition evaluation_configs :: "bool \<Rightarrow> int \<Rightarrow> RTSConfiguration list" where
  "evaluation_configs java depth =
     (let pre = (if java then ''java'' else ''cpp'')
      in [\<lparr>name = pre @ ''-func'', file_level = False, scope_analysis = False,
           overload_analysis = False, virtual_analysis = False, non_functional_analysis = False,
           non_functional_retest_all = False, non_functional_analysis_depth = 1\<rparr>,
          \<lparr>name = pre @ ''-func-macro'', file_level = False, scope_analysis = False,
           overload_analysis = False, virtual_analysis = False, non_functional_analysis = True,
           non_functional_retest_all = False, non_functional_analysis_depth = depth\<rparr>,
          \<lparr>name = pre @ ''-func-macro-retest-all'', file_level = False, scope_analysis = False,
           overload_analysis = False, virtual_analysis = False, non_functional_analysis = False,
           non_functional_retest_all = True, non_functional_analysis_depth = 1\<rparr>,
          \<lparr>name = pre @ ''-func-scope'', file_level = False, scope_analysis = True,
           overload_analysis = False, virtual_analysis = False, non_functional_analysis = False,
           non_functional_retest_all = False, non_functional_analysis_depth = 1\<rparr>,
          \<lparr>name = pre @ ''-func-overload'', file_level = False, scope_analysis = False,
           overload_analysis = True, virtual_analysis = False, non_functional_analysis = False,
           non_functional_retest_all = False, non_functional_analysis_depth = 1\<rparr>,
          \<lparr>name = pre @ ''-func-virtual'', file_level = False, scope_analysis = False,
           overload_analysis = False, virtual_analysis = True, non_functional_analysis = False,
           non_functional_retest_all = False, non_functional_analysis_depth = 1\<rparr>,
          \<lparr>name = pre @ ''-func-all'', file_level = False, scope_analysis = True,
           overload_analysis = True, virtual_analysis = True, non_functional_analysis = True,
           non_functional_retest_all = False, non_functional_analysis_depth = depth\<rparr>,
          \<lparr>name = pre @ ''-file'', file_level = True, scope_analysis = False,
           overload_analysis = False, virtual_analysis = False, non_functional_analysis = False,
           non_functional_retest_all = False, non_functional_analysis_depth = 1\<rparr>])"

text \<open>
  The tables are loaded by the extension of their file; an unsupported extension raises.
  The lookup table gets \<open>opts.repo_root\<close> as its root directory.
\<close>

definition load_function_lookup_table ::
  "('lt, 'tt, 'ft, 'a, 't, 'c) collaborators \<Rightarrow> SelectCommonOptions \<Rightarrow> Path \<Rightarrow> exception + 'lt" where
  "load_function_lookup_table k opts function_lookup_file =
     (if has_ext k function_lookup_file [''.csv'']
        then lookup_from_csv k function_lookup_file (repo_root opts)
      else if has_ext k function_lookup_file [''.pkl'']
        then lookup_from_pickle k function_lookup_file (repo_root opts)
      else Inl (Exception
        ''Provided invalid function lookup file format, only .csv and .pkl are currently supported.''))"

definition load_test_function_traces ::
  "('lt, 'tt, 'ft, 'a, 't, 'c) collaborators \<Rightarrow> Path \<Rightarrow> exception + 'tt" where
  "load_test_function_traces k test_function_traces_file =
     (if has_ext k test_function_traces_file [''.csv'']
        then traces_from_csv k test_function_traces_file
      else if has_ext k test_function_traces_file [''.pkl'']
        then traces_from_pickle k test_function_traces_file
      else Inl (Exception
        ''Provided invalid test traces file format, only .csv and .pkl are currently supported.''))"

definition load_test_file_traces ::
  "('lt, 'tt, 'ft, 'a, 't, 'c) collaborators \<Rightarrow> Path \<Rightarrow> exception + 'ft" where
  "load_test_file_traces k test_file_traces_file =
     (if has_ext k test_file_traces_file [''.csv'']
        then file_traces_from_csv k test_file_traces_file
      else if has_ext k test_file_traces_file [''.pkl'']
        then file_traces_from_pickle k test_file_traces_file
      else Inl (Exception
        ''Provided invalid test file traces file format, only .csv and .pkl are currently supported.''))"

text \<open>
  The command \<open>cpp\<close>: both tables are loaded before any run, and a loader's exception
  or an unsupported extension ends the command. \<open>cli\<close> is the configuration given on the
  command line.
\<close>

definition cpp ::
  "('lt, 'tt, 'ft, 'a, 't, 'c) collaborators \<Rightarrow> SelectCommonOptions \<Rightarrow> Path \<Rightarrow> Path \<Rightarrow> bool \<Rightarrow> bool
   \<Rightarrow> RTSConfiguration \<Rightarrow> output_state \<Rightarrow> exception + output_state" where
  "cpp k opts function_lookup_file test_function_traces_file evaluation java cli s =
     (case load_function_lookup_table k opts function_lookup_file of
        Inl ex \<Rightarrow> Inl ex
      | Inr function_lookup_table \<Rightarrow>
          (case load_test_function_traces k test_function_traces_file of
             Inl ex \<Rightarrow> Inl ex
           | Inr test_function_traces \<Rightarrow>
               Inr (if evaluation
                    then foldl (\<lambda>st c. run_rts k opts function_lookup_table test_function_traces c st) s
                           (evaluation_configs java (non_functional_analysis_depth cli))
                    else run_rts k opts function_lookup_table test_function_traces
                           (cli\<lparr>name := []\<rparr>) s)))"

text \<open>
  The command \<open>syscalls\<close>: the traces are loaded and the algorithm is built before the
  \<open>try\<close> block, so an exception of the loader or of the constructor ends the command;
  the end event is appended inside the block, after the three files.
\<close>

definition syscalls ::
  "('lt, 'tt, 'ft, 'a, 't, 'c) collaborators \<Rightarrow> SelectCommonOptions \<Rightarrow> Path \<Rightarrow> output_state
   \<Rightarrow> exception + output_state" where
  "syscalls k opts test_file_traces_file s =
     (let s0 = append_event (RTS_START_EVENT @ ''_syscall'')
                 (path_join (opt_output opts) (path_of EVENT_LOG)) s
      in case load_test_file_traces k test_file_traces_file of
           Inl ex \<Rightarrow> Inl ex
         | Inr test_file_traces \<Rightarrow>
             (case SyscallFileLevelRTS k test_file_traces (opt_output opts) opts of
                Inl ex \<Rightarrow> Inl ex
              | Inr rts_algo \<Rightarrow>
                  (let tried =
                         (case select_tests k rts_algo (from_revision opts) (to_revision opts) of
                            Inl ex \<Rightarrow> (s0, Some ex)
                          | Inr r \<Rightarrow>
                              write_results k (opt_output opts) (simple_output opts) r s0)
                   in case snd tried of
                        Some ex \<Rightarrow> Inr (fallback k (opt_output opts) (fst tried))
                      | None \<Rightarrow>
                          Inr (append_event (RTS_END_EVENT @ ''_syscall'')
                                 (path_join (opt_output opts) (path_of EVENT_LOG)) (fst tried)))))"

section \<open>Notions used in the statements\<close>



text \<open>
  A test identifier by its parts, the line that spells it and the filter entries that the
  two conversions are to give for it.
\<close>

datatype test_id = Case3 string string string | Suite2 string string | Single string

fun spell :: "test_id \<Rightarrow> string" where
  "spell (Case3 m s c) = m @ ''!!!'' @ s @ ''!!!'' @ c"
| "spell (Suite2 m s) = m @ ''!!!'' @ s"
| "spell (Single m) = m"





text \<open>
  Concrete runs: a disk given by the texts of some files, sets enumerated in the order of
  insertion, a client as the constructor builds it from a diff text for the root
  \<open>/repo\<close>, and the text of a result without the client.
\<close>

definition disk_of :: "(string \<times> string) list \<Rightarrow> Path \<Rightarrow> string option" where
  "disk_of fs = map_of (map (\<lambda>(p, t). (path_of p, t)) fs)"

definition env_of :: "(string \<times> string) list \<Rightarrow> env" where
  "env_of fs = \<lparr>disk = disk_of fs, set_order = (\<lambda>xs. xs)\<rparr>"

definition client_of :: "string \<Rightarrow> string \<Rightarrow> DiffFileClient" where
  "client_of rs t =
     \<lparr>root = path_of ''/repo'', diff_file = None, repo_state = rs, p_diff_content = Some t,
      p_changelist = None, p_file_diffs = Map.empty\<rparr>"

definition result_text :: "error + (string \<times> DiffFileClient) \<Rightarrow> error + string" where
  "result_text r = (case r of Inl err \<Rightarrow> Inl err | Inr (t, c) \<Rightarrow> Inr t)"

text \<open>The diff of the two-hunk scenario, and a diff made without context lines.\<close>

definition two_hunk_diff :: string where
  "two_hunk_diff =
     ''diff --git a/f b/f\<newline>--- a/f\<newline>+++ b/f\<newline>@@ -1,1 +1,1 @@\<newline>-A\<newline>+A2\<newline>@@ -4,1 +4,1 @@\<newline>-D\<newline>+D2''"



text \<open>
  The path of an item as the searches compare it, and a path that the change list holds
  with the action \<open>a\<close> and with no other action.
\<close>

definition item_path :: "ChangelistItem \<Rightarrow> string" where
  "item_path ci = replace_backslash (str_of (filepath ci))"

definition only_action :: "Changelist \<Rightarrow> string \<Rightarrow> ChangelistItemAction \<Rightarrow> bool" where
  "only_action cl fp a =
     ((\<exists>ci \<in> set cl. item_path ci = fp) \<and> (\<forall>ci \<in> set cl. item_path ci = fp \<longrightarrow> action ci = a))"

text \<open>The enumeration of a set yields each of its elements once.\<close>

definition enumerates :: "env \<Rightarrow> bool" where
  "enumerates e =
     (\<forall>xs. set (set_order e xs) = set xs \<and> (distinct xs \<longrightarrow> distinct (set_order e xs)))"

text \<open>The change list of a result, without the client.\<close>

definition result_items :: "error + (Changelist \<times> DiffFileClient) \<Rightarrow> error + Changelist" where
  "result_items r = (case r of Inl err \<Rightarrow> Inl err | Inr (cl, c) \<Rightarrow> Inr cl)"

text \<open>The same disk with sets enumerated against the order of insertion.\<close>

definition env_rev_of :: "(string \<times> string) list \<Rightarrow> env" where
  "env_rev_of fs = \<lparr>disk = disk_of fs, set_order = rev\<rparr>"

text \<open>
  Diffs of a series of changes: \<open>a\<close> is added and \<open>d\<close> is deleted; \<open>f\<close> is added and
  then deleted; \<open>f\<close> is added, deleted and added again.
\<close>

definition boundary_diff :: string where
  "boundary_diff =
     ''diff --git a/a b/a\<newline>new file mode 100644\<newline>--- /dev/null\<newline>+++ b/a\<newline>@@ -0,0 +1 @@\<newline>+y\<newline>diff --git a/d b/d\<newline>deleted file mode 100644\<newline>--- a/d\<newline>+++ /dev/null\<newline>@@ -1 +0,0 @@\<newline>-x''"

definition added_deleted_diff :: string where
  "added_deleted_diff =
     ''diff --git a/f b/f\<newline>new file mode 100644\<newline>--- /dev/null\<newline>+++ b/f\<newline>@@ -0,0 +1 @@\<newline>+x\<newline>diff --git a/f b/f\<newline>deleted file mode 100644\<newline>--- a/f\<newline>+++ /dev/null\<newline>@@ -1 +0,0 @@\<newline>-x''"

definition added_deleted_added_diff :: string where
  "added_deleted_added_diff =
     added_deleted_diff @ ''\<newline>diff --git a/f b/f\<newline>new file mode 100644\<newline>--- /dev/null\<newline>+++ b/f\<newline>@@ -0,0 +1 @@\<newline>+z''"

text \<open>
  The items that the header lines of a diff give: for each line that the header pattern
  matches, the path of its group with the action read from the lines after it.
\<close>

definition header_items :: "string list \<Rightarrow> ChangelistItem set" where
  "header_items ls =
     {\<lparr>filepath = path_of fp, action = action_after (drop (Suc i) ls)\<rparr> | i fp.
        i < length ls \<and> diff_pattern (ls ! i) = Some fp}"

text \<open>
  Header lines that name the same path are followed by lines that give the same action.
\<close>

definition headers_agree :: "string list \<Rightarrow> bool" where
  "headers_agree ls =
     (\<forall>i \<in> {0..<length ls}. \<forall>j \<in> {0..<length ls}.
        \<forall>fp \<in> set_option (diff_pattern (ls ! i)). \<forall>fq \<in> set_option (diff_pattern (ls ! j)).
          path_of fp = path_of fq \<longrightarrow>
          action_after (drop (Suc i) ls) = action_after (drop (Suc j) ls))"




text \<open>The paths that the header lines of a diff name, in their order.\<close>

definition header_paths :: "string list \<Rightarrow> string list" where
  "header_paths ls = List.map_filter diff_pattern ls"

text \<open>A diff of a series of changes in which \<open>f\<close> is modified twice and \<open>g\<close> is added.\<close>

definition twice_modified_diff :: string where
  "twice_modified_diff =
     ''diff --git a/f b/f\<newline>--- a/f\<newline>+++ b/f\<newline>@@ -1 +1 @@\<newline>-a\<newline>+b\<newline>diff --git a/f b/f\<newline>--- a/f\<newline>+++ b/f\<newline>@@ -1 +1 @@\<newline>-b\<newline>+c\<newline>diff --git a/g b/g\<newline>new file mode 100644\<newline>--- /dev/null\<newline>+++ b/g\<newline>@@ -0,0 +1 @@\<newline>+y''"

text \<open>
  A line that spells an identifier between two runs of characters that \<open>strip\<close> removes,
  given as the triple of the run before, the identifier and the run after.
\<close>

definition written :: "string \<times> test_id \<times> string \<Rightarrow> string" where
  "written x = (case x of (pre, i, post) \<Rightarrow> pre @ spell i @ post)"










section \<open>Verified properties\<close>

subsection \<open>Slices and single hunks\<close>












subsection \<open>Round trip of reverse and forward application\<close>



subsection \<open>Lines of a text and the text of lines\<close>








lemma new_section_subset: "set (new_section xs) \<subseteq> drop 1 ` set xs"
  by (induction xs) auto












subsection \<open>Lines collected into a hunk\<close>

lemma parse_hunks_loop_body:
  "\<forall>l \<in> set body. hunk_pattern l = None \<Longrightarrow>
   parse_hunks_loop hunks (Some h) (body @ rest)
     = parse_hunks_loop hunks (Some (h\<lparr>lines := lines h @ filter is_hunk_content body\<rparr>)) rest"
proof (induction body arbitrary: h)
  case Nil
  show ?case by simp
next
  case (Cons l body)
  from Cons.prems have l: "hunk_pattern l = None"
    and b: "\<forall>l \<in> set body. hunk_pattern l = None" by simp_all
  show ?case
  proof (cases "is_hunk_content l")
    case True
    with l Cons.IH [OF b, of "h\<lparr>lines := lines h @ [l]\<rparr>"] show ?thesis by simp
  next
    case False
    with l Cons.IH [OF b, of h] show ?thesis by simp
  qed
qed

text \<open>
  C7 (as amended). After a hunk header, of the lines up to the next hunk header exactly
  those that begin with \<open>+\<close>, \<open>-\<close>, a space or a backslash become the lines of the hunk,
  in their order; a line that begins with another character is left out and does not end
  the collection.
\<close>

theorem parse_hunks_collects_content_lines:
  "hunk_pattern header = Some m \<Longrightarrow> \<forall>l \<in> set body. hunk_pattern l = None \<Longrightarrow>
   parse_hunks_loop hunks current_hunk (header # body @ rest)
     = parse_hunks_loop (flush hunks current_hunk)
         (Some ((new_hunk m)\<lparr>lines := filter is_hunk_content body\<rparr>)) rest"
proof -
  assume m: "hunk_pattern header = Some m" and b: "\<forall>l \<in> set body. hunk_pattern l = None"
  have "lines (new_hunk m) = []"
    by (cases m) (simp add: new_hunk_def)
  with m parse_hunks_loop_body [OF b, of "flush hunks current_hunk" "new_hunk m" rest]
  show ?thesis by simp
qed

theorem parse_hunks_collects_content_lines_witness:
  "hunk_pattern ''@@ -1 +1 @@'' = Some (''1'', None, ''1'', None)
   \<and> hunk_pattern ''-a'' = None \<and> hunk_pattern ''foo'' = None \<and> hunk_pattern ''+b'' = None
   \<and> parse_hunks_loop [] None (''@@ -1 +1 @@'' # [''-a'', ''foo'', ''+b''] @ [])
      = [\<lparr>old_start = 1, old_count = 1, new_start = 1, new_count = 1, lines = [''-a'', ''+b'']\<rparr>]"
proof -
  have m: "hunk_pattern ''@@ -1 +1 @@'' = Some (''1'', None, ''1'', None)" by code_simp
  have b: "\<forall>l \<in> set [''-a'', ''foo'', ''+b'']. hunk_pattern l = None" by code_simp
  have v: "parse_hunks_loop (flush [] None)
         (Some ((new_hunk (''1'', None, ''1'', None))
            \<lparr>lines := filter is_hunk_content [''-a'', ''foo'', ''+b'']\<rparr>)) []
      = [\<lparr>old_start = 1, old_count = 1, new_start = 1, new_count = 1, lines = [''-a'', ''+b'']\<rparr>]"
    by code_simp
  have b': "hunk_pattern ''-a'' = None \<and> hunk_pattern ''foo'' = None \<and> hunk_pattern ''+b'' = None"
    using b by simp
  from parse_hunks_collects_content_lines [OF m b, of "[]" None "[]"] v m b'
  show ?thesis by simp
qed

text \<open>
  C7 as stated fails: in the section \<open>@@ -1 +1 @@\<close>, \<open>-a\<close>, \<open>foo\<close>, \<open>+b\<close> the line \<open>foo\<close>
  begins with none of the four characters, and the line \<open>+b\<close> after it is still a line
  of the hunk.
\<close>

theorem hunk_collection_counterexample:
  "parse_hunks ''@@ -1 +1 @@\<newline>-a\<newline>foo\<newline>+b''
     = [\<lparr>old_start = 1, old_count = 1, new_start = 1, new_count = 1, lines = [''-a'', ''+b'']\<rparr>]"
  by code_simp

subsection \<open>The cached change list\<close>

lemma diff_content_fields:
  "diff_content e c = Inr (t, c1) \<Longrightarrow>
   root c1 = root c \<and> repo_state c1 = repo_state c \<and> p_changelist c1 = p_changelist c"
  by (auto simp: diff_content_def split: option.splits)

lemma get_diff_fields:
  assumes "get_diff e c = Inr (cl, c')"
  shows "p_changelist c' = Some cl \<and> root c' = root c \<and> repo_state c' = repo_state c"
proof (cases "p_changelist c")
  case (Some cl0)
  with assms show ?thesis by (simp add: get_diff_def)
next
  case None
  with assms obtain t c1 where dc: "diff_content e c = Inr (t, c1)"
    by (auto simp: get_diff_def split: sum.splits)
  from None dc assms diff_content_fields [OF dc] show ?thesis
    by (auto simp: get_diff_def Let_def split: prod.splits)
qed

lemma get_diff_again:
  assumes "get_diff e c = Inr (cl, c')"
  shows "get_diff e c' = Inr (cl, c')"
  using get_diff_fields [OF assms] by (simp add: get_diff_def)

lemma read_file_from_disk_root:
  "root c' = root c \<Longrightarrow> read_file_from_disk e c' fp = read_file_from_disk e c fp"
  by (simp add: read_file_from_disk_def)

lemma get_old_file_content_client:
  assumes "get_old_file_content e c fp = Inr (t, c')"
  shows "get_diff e c = Inr (the (p_changelist c'), c')"
proof -
  from assms obtain cl c1 where g: "get_diff e c = Inr (cl, c1)"
    by (auto simp: get_old_file_content_def split: sum.splits)
  with assms have "c' = c1"
    by (auto simp: get_old_file_content_def Let_def split: option.splits if_splits)
  with g get_diff_fields [OF g] show ?thesis by simp
qed

lemma get_new_file_content_client:
  assumes "get_new_file_content e c fp = Inr (t, c')"
  shows "get_diff e c = Inr (the (p_changelist c'), c')"
proof -
  from assms obtain cl c1 where g: "get_diff e c = Inr (cl, c1)"
    by (auto simp: get_new_file_content_def split: sum.splits)
  with assms have "c' = c1"
    by (auto simp: get_new_file_content_def Let_def split: option.splits if_splits)
  with g get_diff_fields [OF g] show ?thesis by simp
qed

lemma get_old_file_content_again:
  assumes "get_old_file_content e c fp = Inr (t, c')"
  shows "get_old_file_content e c' fp = Inr (t, c')"
proof -
  from get_old_file_content_client [OF assms] obtain cl where g: "get_diff e c = Inr (cl, c')"
    by blast
  from assms g get_diff_again [OF g] show ?thesis
    by (simp add: get_old_file_content_def)
qed

lemma get_new_file_content_again:
  assumes "get_new_file_content e c fp = Inr (t, c')"
  shows "get_new_file_content e c' fp = Inr (t, c')"
proof -
  from get_new_file_content_client [OF assms] obtain cl where g: "get_diff e c = Inr (cl, c')"
    by blast
  from assms g get_diff_again [OF g] show ?thesis
    by (simp add: get_new_file_content_def)
qed

lemma get_file_content_at_revision_unfold:
  assumes "(if is_absolute fp0 then relative_to fp0 (root c) else Inr fp0) = Inr fp"
  shows "get_file_content_at_revision e c r fp0 =
     (if repo_state c = ''new'' then
        (if is_new_revision r then Inr (read_file_from_disk e c fp, c)
         else get_old_file_content e c (replace_backslash (str_of fp)))
      else
        (if is_new_revision r then get_new_file_content e c (replace_backslash (str_of fp))
         else Inr (read_file_from_disk e c fp, c)))"
  unfolding get_file_content_at_revision_def assms by (simp add: Let_def)

lemma get_file_content_at_revision_again:
  assumes "get_file_content_at_revision e c r fp0 = Inr (t, c')"
  shows "get_file_content_at_revision e c' r fp0 = Inr (t, c')"
proof -
  from assms obtain fp where
    n: "(if is_absolute fp0 then relative_to fp0 (root c) else Inr fp0) = Inr fp"
    by (auto simp: get_file_content_at_revision_def split: sum.splits)
  note u = get_file_content_at_revision_unfold [OF n]
  let ?s = "replace_backslash (str_of fp)"
  consider (disk) "(repo_state c = ''new'') = is_new_revision r"
    | (old) "repo_state c = ''new''" "\<not> is_new_revision r"
    | (new) "repo_state c \<noteq> ''new''" "is_new_revision r"
    by blast
  then show ?thesis
  proof cases
    case disk
    with assms u have "c' = c" by (auto split: if_splits)
    with assms show ?thesis by simp
  next
    case old
    with assms u have o: "get_old_file_content e c ?s = Inr (t, c')" by simp
    from get_old_file_content_client [OF o] obtain cl where g: "get_diff e c = Inr (cl, c')"
      by blast
    from get_diff_fields [OF g] have rs: "repo_state c' = repo_state c"
      and rt: "root c' = root c" by simp_all
    from n have n': "(if is_absolute fp0 then relative_to fp0 (root c') else Inr fp0) = Inr fp"
      unfolding rt .
    from get_file_content_at_revision_unfold [OF n', of e r] rs old
      get_old_file_content_again [OF o]
    show ?thesis by simp
  next
    case new
    with assms u have o: "get_new_file_content e c ?s = Inr (t, c')" by simp
    from get_new_file_content_client [OF o] obtain cl where g: "get_diff e c = Inr (cl, c')"
      by blast
    from get_diff_fields [OF g] have rs: "repo_state c' = repo_state c"
      and rt: "root c' = root c" by simp_all
    from n have n': "(if is_absolute fp0 then relative_to fp0 (root c') else Inr fp0) = Inr fp"
      unfolding rt .
    from get_file_content_at_revision_unfold [OF n', of e r] rs new
      get_new_file_content_again [OF o]
    show ?thesis by simp
  qed
qed

text \<open>
  C8. A second call of \<open>get_diff\<close> on the client left by the first returns the same change
  list and leaves the client as it is; with the same disk, a second call of
  \<open>get_file_content_at_revision\<close> for the same revision and path on the client left by
  the first returns the same text.
\<close>

theorem parsing_and_content_idempotent:
  "(get_diff e c = Inr (cl, c') \<longrightarrow> get_diff e c' = Inr (cl, c'))
   \<and> (get_file_content_at_revision e c r fp = Inr (t, c'') \<longrightarrow>
        get_file_content_at_revision e c'' r fp = Inr (t, c''))"
  using get_diff_again [of e c cl c'] get_file_content_at_revision_again [of e c r fp t c'']
  by blast

lemma result_items_Inr: "result_items r = Inr cl \<Longrightarrow> \<exists>c. r = Inr (cl, c)"
  by (auto simp: result_items_def split: sum.splits)

lemma result_text_Inr: "result_text r = Inr t \<Longrightarrow> \<exists>c. r = Inr (t, c)"
  by (auto simp: result_text_def split: sum.splits)

theorem parsing_and_content_idempotent_witness:
  "result_items (get_diff (env_of []) (client_of ''new'' two_hunk_diff))
     = Inr [\<lparr>filepath = Path [] [''f''], action = MODIFIED\<rparr>]
   \<and> result_items (get_diff (env_of [])
        (snd (projr (get_diff (env_of []) (client_of ''new'' two_hunk_diff)))))
     = Inr [\<lparr>filepath = Path [] [''f''], action = MODIFIED\<rparr>]
   \<and> result_text (get_file_content_at_revision
        (env_of [(''/repo/f'', ''A2\<newline>B\<newline>C\<newline>D2\<newline>E'')])
        (client_of ''new'' two_hunk_diff) ''old'' (path_of ''f''))
     = Inr ''A\<newline>B\<newline>C\<newline>D\<newline>E''
   \<and> result_text (get_file_content_at_revision
        (env_of [(''/repo/f'', ''A2\<newline>B\<newline>C\<newline>D2\<newline>E'')])
        (snd (projr (get_file_content_at_revision
           (env_of [(''/repo/f'', ''A2\<newline>B\<newline>C\<newline>D2\<newline>E'')])
           (client_of ''new'' two_hunk_diff) ''old'' (path_of ''f''))))
        ''old'' (path_of ''f''))
     = Inr ''A\<newline>B\<newline>C\<newline>D\<newline>E''"
proof -
  let ?e = "env_of [(''/repo/f'', ''A2\<newline>B\<newline>C\<newline>D2\<newline>E'')]"
  let ?c = "client_of ''new'' two_hunk_diff"
  let ?cl = "[\<lparr>filepath = Path [] [''f''], action = MODIFIED\<rparr>]"
  have a: "result_items (get_diff (env_of []) ?c) = Inr ?cl" by code_simp
  then obtain c' where g: "get_diff (env_of []) ?c = Inr (?cl, c')"
    using result_items_Inr by blast
  have b: "result_text (get_file_content_at_revision ?e ?c ''old'' (path_of ''f''))
     = Inr ''A\<newline>B\<newline>C\<newline>D\<newline>E''" by code_simp
  then obtain c'' where
    t: "get_file_content_at_revision ?e ?c ''old'' (path_of ''f'')
          = Inr (''A\<newline>B\<newline>C\<newline>D\<newline>E'', c'')"
    using result_text_Inr by blast
  from g parsing_and_content_idempotent [of "env_of []" ?c ?cl c']
  have g': "get_diff (env_of []) c' = Inr (?cl, c')" by blast
  from t parsing_and_content_idempotent [of ?e ?c _ _ "''old''" "path_of ''f''" _ c'']
  have t': "get_file_content_at_revision ?e c'' ''old'' (path_of ''f'')
          = Inr (''A\<newline>B\<newline>C\<newline>D\<newline>E'', c'')" by blast
  from a b g g' t t' show ?thesis by (simp add: result_items_def result_text_def)
qed

subsection \<open>The side that a revision asks for\<close>





subsection \<open>Added, deleted and untouched files\<close>

lemma find_item_None:
  "\<forall>ci \<in> set cl. item_path ci \<noteq> fp \<Longrightarrow> find_item cl fp = None"
  by (simp add: find_item_def find_None_iff item_path_def)

lemma find_item_only:
  assumes "only_action cl fp a"
  shows "\<exists>item. find_item cl fp = Some item \<and> action item = a"
proof (cases "find_item cl fp")
  case None
  then have "\<forall>ci \<in> set cl. item_path ci \<noteq> fp"
    by (simp add: find_item_def find_None_iff item_path_def)
  with assms show ?thesis by (auto simp: only_action_def)
next
  case (Some item)
  then have "item \<in> set cl \<and> item_path item = fp"
    by (auto simp: find_item_def find_Some_iff item_path_def)
  with assms Some show ?thesis by (auto simp: only_action_def)
qed

text \<open>
  C4 (as amended). For a path that the change list holds with the action ADDED and no
  other action, the old content is the empty string; for a path that it holds with the
  action DELETED and no other action, the new content is the empty string; for a path
  that it does not hold, the old and the new content are both the text on disk, or the
  empty string if the file is not on disk.
\<close>

theorem boundary_contents:
  assumes "get_diff e c = Inr (cl, c')"
  shows "(only_action cl fp ADDED \<longrightarrow> get_old_file_content e c fp = Inr ([], c'))
   \<and> (only_action cl fp DELETED \<longrightarrow> get_new_file_content e c fp = Inr ([], c'))
   \<and> ((\<forall>ci \<in> set cl. item_path ci \<noteq> fp) \<longrightarrow>
        get_old_file_content e c fp =
          Inr (case disk e (path_join (root c) (path_of fp)) of Some t \<Rightarrow> t | None \<Rightarrow> [], c')
        \<and> get_new_file_content e c fp =
          Inr (case disk e (path_join (root c) (path_of fp)) of Some t \<Rightarrow> t | None \<Rightarrow> [], c'))"
proof -
  from get_diff_fields [OF assms] have rt: "root c' = root c" by simp
  have a: "get_old_file_content e c fp = Inr ([], c')" if "only_action cl fp ADDED"
    using find_item_only [OF that] assms by (auto simp: get_old_file_content_def)
  have d: "get_new_file_content e c fp = Inr ([], c')" if "only_action cl fp DELETED"
    using find_item_only [OF that] assms by (auto simp: get_new_file_content_def)
  have u: "get_old_file_content e c fp =
          Inr (case disk e (path_join (root c) (path_of fp)) of Some t \<Rightarrow> t | None \<Rightarrow> [], c')
        \<and> get_new_file_content e c fp =
          Inr (case disk e (path_join (root c) (path_of fp)) of Some t \<Rightarrow> t | None \<Rightarrow> [], c')"
    if "\<forall>ci \<in> set cl. item_path ci \<noteq> fp"
    using find_item_None [OF that] assms rt
    by (auto simp: get_old_file_content_def get_new_file_content_def read_file_from_disk_def
        split: option.splits)
  from a d u show ?thesis by blast
qed

theorem boundary_contents_witness:
  "result_items (get_diff (env_of [(''/repo/u'', ''U'')]) (client_of ''old'' boundary_diff))
     = Inr [\<lparr>filepath = Path [] [''a''], action = ADDED\<rparr>,
            \<lparr>filepath = Path [] [''d''], action = DELETED\<rparr>]
   \<and> result_text (get_old_file_content (env_of [(''/repo/u'', ''U'')])
         (client_of ''old'' boundary_diff) ''a'') = Inr []
   \<and> result_text (get_new_file_content (env_of [(''/repo/u'', ''U'')])
         (client_of ''old'' boundary_diff) ''d'') = Inr []
   \<and> result_text (get_old_file_content (env_of [(''/repo/u'', ''U'')])
         (client_of ''old'' boundary_diff) ''u'') = Inr ''U''
   \<and> result_text (get_new_file_content (env_of [(''/repo/u'', ''U'')])
         (client_of ''old'' boundary_diff) ''u'') = Inr ''U''
   \<and> result_text (get_new_file_content (env_of [(''/repo/u'', ''U'')])
         (client_of ''old'' boundary_diff) ''v'') = Inr []"
proof -
  let ?e = "env_of [(''/repo/u'', ''U'')]"
  let ?c = "client_of ''old'' boundary_diff"
  let ?cl = "[\<lparr>filepath = Path [] [''a''], action = ADDED\<rparr>,
              \<lparr>filepath = Path [] [''d''], action = DELETED\<rparr>]"
  have i: "result_items (get_diff ?e ?c) = Inr ?cl" by code_simp
  then obtain c' where g: "get_diff ?e ?c = Inr (?cl, c')"
    using result_items_Inr by blast
  have a: "only_action ?cl ''a'' ADDED" by code_simp
  have d: "only_action ?cl ''d'' DELETED" by code_simp
  have u: "\<forall>ci \<in> set ?cl. item_path ci \<noteq> ''u''" by code_simp
  have v: "\<forall>ci \<in> set ?cl. item_path ci \<noteq> ''v''" by code_simp
  have du: "(case disk ?e (path_join (root ?c) (path_of ''u'')) of Some t \<Rightarrow> t | None \<Rightarrow> [])
      = ''U''" by code_simp
  have dv: "(case disk ?e (path_join (root ?c) (path_of ''v'')) of Some t \<Rightarrow> t | None \<Rightarrow> [])
      = []" by code_simp
  from boundary_contents [OF g, of "''a''"] a
  have 1: "result_text (get_old_file_content ?e ?c ''a'') = Inr []"
    by (simp add: result_text_def)
  from boundary_contents [OF g, of "''d''"] d
  have 2: "result_text (get_new_file_content ?e ?c ''d'') = Inr []"
    by (simp add: result_text_def)
  from boundary_contents [OF g, of "''u''"] u du
  have 3: "result_text (get_old_file_content ?e ?c ''u'') = Inr ''U''"
    and 4: "result_text (get_new_file_content ?e ?c ''u'') = Inr ''U''"
    by (simp_all add: result_text_def)
  from boundary_contents [OF g, of "''v''"] v dv
  have 5: "result_text (get_new_file_content ?e ?c ''v'') = Inr []"
    by (simp add: result_text_def)
  from i 1 2 3 4 5 show ?thesis by blast
qed

text \<open>
  C4 as stated fails for a path that the change list holds with two actions; which case
  fails depends on the order in which the set of items is enumerated. With \<open>f\<close> added,
  deleted and added again and the items in the order of insertion, the new content of
  \<open>f\<close>, which the change list holds with the action DELETED, is \<open>z\<close>. With \<open>f\<close> added
  and deleted and the items in the other order, the old content of \<open>f\<close>, which the change
  list holds with the action ADDED, is \<open>x\<close>.
\<close>

theorem boundary_contents_counterexample:
  "result_items (get_diff (env_of []) (client_of ''old'' added_deleted_added_diff))
     = Inr [\<lparr>filepath = Path [] [''f''], action = ADDED\<rparr>,
            \<lparr>filepath = Path [] [''f''], action = DELETED\<rparr>]
   \<and> result_text (get_new_file_content (env_of [])
         (client_of ''old'' added_deleted_added_diff) ''f'') = Inr ''z''
   \<and> result_items (get_diff (env_rev_of []) (client_of ''new'' added_deleted_diff))
     = Inr [\<lparr>filepath = Path [] [''f''], action = DELETED\<rparr>,
            \<lparr>filepath = Path [] [''f''], action = ADDED\<rparr>]
   \<and> result_text (get_old_file_content (env_rev_of [])
         (client_of ''new'' added_deleted_diff) ''f'') = Inr ''x''"
  by code_simp

subsection \<open>The change list of a diff\<close>

lemma startswith_append: "startswith s p \<longleftrightarrow> (\<exists>b. s = p @ b)"
proof
  assume "startswith s p"
  then have "s = p @ drop (length p) s"
    by (metis append_take_drop_id startswith_def)
  then show "\<exists>b. s = p @ b" ..
next
  assume "\<exists>b. s = p @ b"
  then show "startswith s p" by (auto simp: startswith_def)
qed

lemma contains_iff: "contains s sub \<longleftrightarrow> (\<exists>a b. s = a @ sub @ b)"
proof (induction s)
  case Nil
  show ?case by auto
next
  case (Cons c cs)
  show ?case
  proof
    assume "contains (c # cs) sub"
    then consider "startswith (c # cs) sub" | "contains cs sub" by auto
    then show "\<exists>a b. c # cs = a @ sub @ b"
    proof cases
      case 1
      then obtain b where "c # cs = sub @ b" using startswith_append by blast
      then have "c # cs = [] @ sub @ b" by simp
      then show ?thesis by blast
    next
      case 2
      with Cons.IH obtain a b where "cs = a @ sub @ b" by blast
      then have "c # cs = (c # a) @ sub @ b" by simp
      then show ?thesis by blast
    qed
  next
    assume "\<exists>a b. c # cs = a @ sub @ b"
    then obtain a b where e: "c # cs = a @ sub @ b" by blast
    show "contains (c # cs) sub"
    proof (cases a)
      case Nil
      with e have "startswith (c # cs) sub" using startswith_append by auto
      then show ?thesis by simp
    next
      case (Cons x a')
      with e have "cs = a' @ sub @ b" by simp
      with Cons.IH show ?thesis by auto
    qed
  qed
qed

lemma diff_pattern_startswith:
  assumes "diff_pattern line = Some fp"
  shows "startswith line ''diff --git''"
proof -
  from assms have "startswith line ''diff --git a/''"
    by (auto simp: diff_pattern_def split: if_splits)
  then obtain b where "line = ''diff --git a/'' @ b" using startswith_append by blast
  then have "line = ''diff --git'' @ ('' a/'' @ b)" by simp
  then show ?thesis using startswith_append by blast
qed

lemma header_items_Nil: "header_items [] = {}"
  by (simp add: header_items_def)

lemma header_items_Cons:
  "header_items (l # ls) =
     (case diff_pattern l of
        Some fp \<Rightarrow> {\<lparr>filepath = path_of fp, action = action_after ls\<rparr>}
      | None \<Rightarrow> {}) \<union> header_items ls"
proof (rule set_eqI)
  fix x
  show "x \<in> header_items (l # ls) \<longleftrightarrow>
        x \<in> (case diff_pattern l of
                Some fp \<Rightarrow> {\<lparr>filepath = path_of fp, action = action_after ls\<rparr>}
              | None \<Rightarrow> {}) \<union> header_items ls"
  proof
    assume "x \<in> header_items (l # ls)"
    then obtain i fp where x: "x = \<lparr>filepath = path_of fp, action = action_after (drop (Suc i) (l # ls))\<rparr>"
      and i: "i < length (l # ls)" and m: "diff_pattern ((l # ls) ! i) = Some fp"
      by (auto simp: header_items_def)
    show "x \<in> (case diff_pattern l of
                Some fp \<Rightarrow> {\<lparr>filepath = path_of fp, action = action_after ls\<rparr>}
              | None \<Rightarrow> {}) \<union> header_items ls"
    proof (cases i)
      case 0
      with x m show ?thesis by simp
    next
      case (Suc j)
      with x i m have "x \<in> header_items ls"
        by (auto simp: header_items_def)
      then show ?thesis by simp
    qed
  next
    assume "x \<in> (case diff_pattern l of
                Some fp \<Rightarrow> {\<lparr>filepath = path_of fp, action = action_after ls\<rparr>}
              | None \<Rightarrow> {}) \<union> header_items ls"
    then consider (a) fp where "diff_pattern l = Some fp"
        "x = \<lparr>filepath = path_of fp, action = action_after ls\<rparr>"
      | (b) "x \<in> header_items ls"
      by (auto split: option.splits)
    then show "x \<in> header_items (l # ls)"
    proof cases
      case a
      then have "x = \<lparr>filepath = path_of fp, action = action_after (drop (Suc 0) (l # ls))\<rparr>
          \<and> 0 < length (l # ls) \<and> diff_pattern ((l # ls) ! 0) = Some fp" by simp
      then show ?thesis unfolding header_items_def by blast
    next
      case b
      then obtain i fp where "x = \<lparr>filepath = path_of fp, action = action_after (drop (Suc i) ls)\<rparr>"
        "i < length ls" "diff_pattern (ls ! i) = Some fp"
        by (auto simp: header_items_def)
      then have "x = \<lparr>filepath = path_of fp, action = action_after (drop (Suc (Suc i)) (l # ls))\<rparr>
          \<and> Suc i < length (l # ls) \<and> diff_pattern ((l # ls) ! Suc i) = Some fp" by simp
      then show ?thesis unfolding header_items_def by blast
    qed
  qed
qed

lemma set_set_add: "set (set_add x xs) = insert x (set xs)"
  by (auto simp: set_add_def)

lemma distinct_set_add: "distinct xs \<Longrightarrow> distinct (set_add x xs)"
  by (auto simp: set_add_def)

lemma get_diff_loop_items:
  "set (fst (get_diff_loop items cf cdl fd ls)) = set items \<union> header_items ls"
proof (induction ls arbitrary: items cf cdl fd)
  case Nil
  show ?case by (simp add: header_items_Nil)
next
  case (Cons l ls)
  show ?case
  proof (cases "diff_pattern l")
    case None
    then show ?thesis
      by (simp add: header_items_Cons Cons.IH Let_def)
  next
    case (Some fp)
    with diff_pattern_startswith [OF Some] show ?thesis
      by (simp add: header_items_Cons Cons.IH Let_def set_set_add)
  qed
qed

lemma get_diff_loop_distinct:
  "distinct items \<Longrightarrow> distinct (fst (get_diff_loop items cf cdl fd ls))"
proof (induction ls arbitrary: items cf cdl fd)
  case Nil
  then show ?case by simp
next
  case (Cons l ls)
  show ?case
  proof (cases "diff_pattern l")
    case None
    with Cons show ?thesis by (simp add: Let_def)
  next
    case (Some fp)
    with Cons distinct_set_add [OF Cons.prems] show ?thesis by (simp add: Let_def)
  qed
qed

lemma get_diff_parsed:
  assumes "p_changelist c = None" and "diff_content e c = Inr (t, c1)"
  shows "\<exists>c'. get_diff e c =
     Inr (set_order e (fst (get_diff_loop [] None [] (p_file_diffs c1) (splitlines t))), c')"
  using assms by (simp add: get_diff_def Let_def split: prod.splits)

text \<open>
  C5. The change list of a diff consists of one item for each line that the header
  pattern matches, with the path of the header and the action read from the line that
  follows the header: ADDED if that line contains \<open>new file mode\<close>, otherwise DELETED if
  it contains \<open>deleted file mode\<close>, otherwise MODIFIED, which is also the action of a
  header on the last line. No later line is looked at.
\<close>

theorem action_from_line_after_header:
  assumes "p_changelist c = None" and "diff_content e c = Inr (t, c1)" and "enumerates e"
  shows "(\<exists>cl c'. get_diff e c = Inr (cl, c') \<and> set cl = header_items (splitlines t))
   \<and> action_after [] = MODIFIED
   \<and> action_after (next_line # rest) =
       (if (\<exists>a b. next_line = a @ ''new file mode'' @ b) then ADDED
        else if (\<exists>a b. next_line = a @ ''deleted file mode'' @ b) then DELETED
        else MODIFIED)"
proof -
  from get_diff_parsed [OF assms(1,2)] obtain c' where
    g: "get_diff e c =
      Inr (set_order e (fst (get_diff_loop [] None [] (p_file_diffs c1) (splitlines t))), c')"
    by blast
  from assms(3) have
    "set (set_order e (fst (get_diff_loop [] None [] (p_file_diffs c1) (splitlines t))))
      = header_items (splitlines t)"
    by (simp add: enumerates_def get_diff_loop_items)
  with g have 1: "\<exists>cl c'. get_diff e c = Inr (cl, c') \<and> set cl = header_items (splitlines t)"
    by blast
  have 2: "action_after [] = MODIFIED" by (simp add: action_after_def)
  have 3: "action_after (next_line # rest) =
       (if (\<exists>a b. next_line = a @ ''new file mode'' @ b) then ADDED
        else if (\<exists>a b. next_line = a @ ''deleted file mode'' @ b) then DELETED
        else MODIFIED)"
    by (simp only: action_after_def list.case contains_iff)
  from 1 2 3 show ?thesis by blast
qed

lemma enumerates_env_of: "enumerates (env_of fs)"
  by (simp add: enumerates_def env_of_def)

lemma diff_content_client_of: "diff_content e (client_of rs t) = Inr (t, client_of rs t)"
  by (simp add: diff_content_def client_of_def)

lemma p_changelist_client_of: "p_changelist (client_of rs t) = None"
  by (simp add: client_of_def)

theorem action_from_line_after_header_witness:
  "result_items (get_diff (env_of []) (client_of ''old'' boundary_diff))
     = Inr [\<lparr>filepath = Path [] [''a''], action = ADDED\<rparr>,
            \<lparr>filepath = Path [] [''d''], action = DELETED\<rparr>]
   \<and> set [\<lparr>filepath = Path [] [''a''], action = ADDED\<rparr>,
           \<lparr>filepath = Path [] [''d''], action = DELETED\<rparr>]
     = header_items (splitlines boundary_diff)"
proof -
  let ?cl = "[\<lparr>filepath = Path [] [''a''], action = ADDED\<rparr>,
              \<lparr>filepath = Path [] [''d''], action = DELETED\<rparr>]"
  have i: "result_items (get_diff (env_of []) (client_of ''old'' boundary_diff)) = Inr ?cl"
    by code_simp
  from action_from_line_after_header
    [OF p_changelist_client_of diff_content_client_of enumerates_env_of,
      of "[]" "''old''" boundary_diff]
  obtain cl c' where g: "get_diff (env_of []) (client_of ''old'' boundary_diff) = Inr (cl, c')"
    and s: "set cl = header_items (splitlines boundary_diff)" by blast
  from i g have "cl = ?cl" by (simp add: result_items_def)
  with i s show ?thesis by simp
qed

lemma headers_agree_iff:
  "headers_agree ls \<longleftrightarrow>
     (\<forall>x \<in> header_items ls. \<forall>y \<in> header_items ls.
        filepath x = filepath y \<longrightarrow> action x = action y)"
proof
  assume a: "headers_agree ls"
  show "\<forall>x \<in> header_items ls. \<forall>y \<in> header_items ls.
        filepath x = filepath y \<longrightarrow> action x = action y"
  proof (intro ballI impI)
    fix x y
    assume x: "x \<in> header_items ls" and y: "y \<in> header_items ls"
      and p: "filepath x = filepath y"
    from x obtain i fp where xi: "x = \<lparr>filepath = path_of fp, action = action_after (drop (Suc i) ls)\<rparr>"
      "i < length ls" "diff_pattern (ls ! i) = Some fp"
      by (auto simp: header_items_def)
    from y obtain j fq where yj: "y = \<lparr>filepath = path_of fq, action = action_after (drop (Suc j) ls)\<rparr>"
      "j < length ls" "diff_pattern (ls ! j) = Some fq"
      by (auto simp: header_items_def)
    from p xi(1) yj(1) have "path_of fp = path_of fq" by simp
    moreover have "i \<in> {0..<length ls}" and "j \<in> {0..<length ls}"
      using xi(2) yj(2) by simp_all
    moreover have "fp \<in> set_option (diff_pattern (ls ! i))"
      and "fq \<in> set_option (diff_pattern (ls ! j))"
      using xi(3) yj(3) by simp_all
    ultimately have "action_after (drop (Suc i) ls) = action_after (drop (Suc j) ls)"
      using a unfolding headers_agree_def by blast
    with xi(1) yj(1) show "action x = action y" by simp
  qed
next
  assume h: "\<forall>x \<in> header_items ls. \<forall>y \<in> header_items ls.
        filepath x = filepath y \<longrightarrow> action x = action y"
  show "headers_agree ls"
    unfolding headers_agree_def
  proof (intro ballI impI)
    fix i j fp fq
    assume i: "i \<in> {0..<length ls}" and j: "j \<in> {0..<length ls}"
      and fp: "fp \<in> set_option (diff_pattern (ls ! i))"
      and fq: "fq \<in> set_option (diff_pattern (ls ! j))"
      and p: "path_of fp = path_of fq"
    let ?x = "\<lparr>filepath = path_of fp, action = action_after (drop (Suc i) ls)\<rparr>"
    let ?y = "\<lparr>filepath = path_of fq, action = action_after (drop (Suc j) ls)\<rparr>"
    from i fp have "?x = ?x \<and> i < length ls \<and> diff_pattern (ls ! i) = Some fp"
      by (cases "diff_pattern (ls ! i)") simp_all
    then have x: "?x \<in> header_items ls" unfolding header_items_def by blast
    from j fq have "?y = ?y \<and> j < length ls \<and> diff_pattern (ls ! j) = Some fq"
      by (cases "diff_pattern (ls ! j)") simp_all
    then have y: "?y \<in> header_items ls" unfolding header_items_def by blast
    from h x y have "filepath ?x = filepath ?y \<longrightarrow> action ?x = action ?y" by blast
    with p show "action_after (drop (Suc i) ls) = action_after (drop (Suc j) ls)" by simp
  qed
qed

lemma header_paths_Cons:
  "header_paths (l # ls) =
     (case diff_pattern l of Some fp \<Rightarrow> fp # header_paths ls | None \<Rightarrow> header_paths ls)"
  by (simp add: header_paths_def List.map_filter_simps split: option.splits)

lemma get_diff_loop_paths:
  "distinct (map filepath items) \<Longrightarrow> distinct (map path_of (header_paths ls)) \<Longrightarrow>
   filepath ` set items \<inter> path_of ` set (header_paths ls) = {} \<Longrightarrow>
   distinct (map filepath (fst (get_diff_loop items cf cdl fd ls)))"
proof (induction ls arbitrary: items cf cdl fd)
  case Nil
  then show ?case by simp
next
  case (Cons l ls)
  show ?case
  proof (cases "diff_pattern l")
    case None
    with Cons.prems have "distinct (map path_of (header_paths ls))"
      and "filepath ` set items \<inter> path_of ` set (header_paths ls) = {}"
      by (simp_all add: header_paths_Cons)
    from Cons.IH [OF Cons.prems(1) this] None show ?thesis by (simp add: Let_def)
  next
    case (Some fp)
    let ?x = "\<lparr>filepath = path_of fp, action = action_after ls\<rparr>"
    from Some Cons.prems have d: "distinct (map path_of (header_paths ls))"
      and n: "path_of fp \<notin> path_of ` set (header_paths ls)"
      and i: "path_of fp \<notin> filepath ` set items"
      and j: "filepath ` set items \<inter> path_of ` set (header_paths ls) = {}"
      by (auto simp: header_paths_Cons)
    from i have "?x \<notin> set items" by force
    then have a: "set_add ?x items = items @ [?x]" by (simp add: set_add_def)
    from Cons.prems(1) i have 1: "distinct (map filepath (items @ [?x]))" by simp
    from n j have 2: "filepath ` set (items @ [?x]) \<inter> path_of ` set (header_paths ls) = {}"
      by auto
    from Cons.IH [OF 1 d 2] a Some diff_pattern_startswith [OF Some] show ?thesis
      by (simp add: Let_def)
  qed
qed

text \<open>
  C6 (as amended). No item occurs twice in the change list of a diff. A path occurs in it
  with one action only exactly when the header lines that name the path are followed by
  lines that give the same action; and when no two header lines name the same path, no
  path occurs in two items.
\<close>

theorem changelist_items_distinct:
  assumes "p_changelist c = None" and "diff_content e c = Inr (t, c1)" and "enumerates e"
  shows "\<exists>cl c'. get_diff e c = Inr (cl, c') \<and> distinct cl
     \<and> ((\<forall>x \<in> set cl. \<forall>y \<in> set cl. filepath x = filepath y \<longrightarrow> action x = action y)
          \<longleftrightarrow> headers_agree (splitlines t))
     \<and> (distinct (map path_of (header_paths (splitlines t))) \<longrightarrow> distinct (map filepath cl))"
proof -
  let ?ls = "splitlines t"
  let ?items = "fst (get_diff_loop [] None [] (p_file_diffs c1) ?ls)"
  from get_diff_parsed [OF assms(1,2)] obtain c' where
    g: "get_diff e c = Inr (set_order e ?items, c')" by blast
  have di: "distinct ?items" by (rule get_diff_loop_distinct) simp
  with assms(3) have d: "distinct (set_order e ?items)" by (simp add: enumerates_def)
  from assms(3) have so: "set (set_order e ?items) = set ?items"
    by (simp add: enumerates_def)
  then have s: "set (set_order e ?items) = header_items ?ls"
    by (simp add: get_diff_loop_items)
  have u: "(\<forall>x \<in> set (set_order e ?items). \<forall>y \<in> set (set_order e ?items).
             filepath x = filepath y \<longrightarrow> action x = action y) \<longleftrightarrow> headers_agree ?ls"
    unfolding s headers_agree_iff ..
  have p: "distinct (map filepath (set_order e ?items))"
    if "distinct (map path_of (header_paths ?ls))"
  proof -
    from get_diff_loop_paths [of "[]" ?ls None "[]" "p_file_diffs c1"] that
    have "distinct (map filepath ?items)" by simp
    then have "inj_on filepath (set ?items)" by (simp add: distinct_map)
    with so d show ?thesis by (simp add: distinct_map)
  qed
  from g d u p show ?thesis by blast
qed

theorem changelist_items_distinct_witness:
  "header_paths (splitlines twice_modified_diff) = [''f'', ''f'', ''g'']
   \<and> result_items (get_diff (env_of []) (client_of ''old'' twice_modified_diff))
     = Inr [\<lparr>filepath = Path [] [''f''], action = MODIFIED\<rparr>,
            \<lparr>filepath = Path [] [''g''], action = ADDED\<rparr>]
   \<and> distinct [\<lparr>filepath = Path [] [''f''], action = MODIFIED\<rparr>,
                \<lparr>filepath = Path [] [''g''], action = ADDED\<rparr>]
   \<and> header_paths (splitlines boundary_diff) = [''a'', ''d'']
   \<and> result_items (get_diff (env_of []) (client_of ''old'' boundary_diff))
     = Inr [\<lparr>filepath = Path [] [''a''], action = ADDED\<rparr>,
            \<lparr>filepath = Path [] [''d''], action = DELETED\<rparr>]
   \<and> distinct (map filepath [\<lparr>filepath = Path [] [''a''], action = ADDED\<rparr>,
                              \<lparr>filepath = Path [] [''d''], action = DELETED\<rparr>])"
proof -
  let ?cl = "[\<lparr>filepath = Path [] [''f''], action = MODIFIED\<rparr>,
              \<lparr>filepath = Path [] [''g''], action = ADDED\<rparr>]"
  let ?bl = "[\<lparr>filepath = Path [] [''a''], action = ADDED\<rparr>,
              \<lparr>filepath = Path [] [''d''], action = DELETED\<rparr>]"
  have "splitlines twice_modified_diff =
      [''diff --git a/f b/f'', ''--- a/f'', ''+++ b/f'', ''@@ -1 +1 @@'', ''-a'', ''+b'',
       ''diff --git a/f b/f'', ''--- a/f'', ''+++ b/f'', ''@@ -1 +1 @@'', ''-b'', ''+c'',
       ''diff --git a/g b/g'', ''new file mode 100644'', ''--- /dev/null'', ''+++ b/g'',
       ''@@ -0,0 +1 @@'', ''+y'']" by code_simp
  moreover have "header_paths
      [''diff --git a/f b/f'', ''--- a/f'', ''+++ b/f'', ''@@ -1 +1 @@'', ''-a'', ''+b'',
       ''diff --git a/f b/f'', ''--- a/f'', ''+++ b/f'', ''@@ -1 +1 @@'', ''-b'', ''+c'',
       ''diff --git a/g b/g'', ''new file mode 100644'', ''--- /dev/null'', ''+++ b/g'',
       ''@@ -0,0 +1 @@'', ''+y''] = [''f'', ''f'', ''g'']" by code_simp
  ultimately have hp: "header_paths (splitlines twice_modified_diff) = [''f'', ''f'', ''g'']"
    by (simp only:)
  have i: "result_items (get_diff (env_of []) (client_of ''old'' twice_modified_diff)) = Inr ?cl"
    by code_simp
  from changelist_items_distinct
    [OF p_changelist_client_of diff_content_client_of enumerates_env_of,
      of "[]" "''old''" twice_modified_diff]
  obtain cl c' where g: "get_diff (env_of []) (client_of ''old'' twice_modified_diff) = Inr (cl, c')"
    and d: "distinct cl"
    and u: "(\<forall>x \<in> set cl. \<forall>y \<in> set cl. filepath x = filepath y \<longrightarrow> action x = action y)
          \<longleftrightarrow> headers_agree (splitlines twice_modified_diff)"
    by blast
  from i g have c: "cl = ?cl" by (simp add: result_items_def)
  have "\<forall>x \<in> set ?cl. \<forall>y \<in> set ?cl. filepath x = filepath y \<longrightarrow> action x = action y"
    by simp
  with u c have a: "headers_agree (splitlines twice_modified_diff)" by (simp only:)
  have "splitlines boundary_diff =
      [''diff --git a/a b/a'', ''new file mode 100644'', ''--- /dev/null'', ''+++ b/a'',
       ''@@ -0,0 +1 @@'', ''+y'', ''diff --git a/d b/d'', ''deleted file mode 100644'',
       ''--- a/d'', ''+++ /dev/null'', ''@@ -1 +0,0 @@'', ''-x'']" by code_simp
  moreover have "header_paths
      [''diff --git a/a b/a'', ''new file mode 100644'', ''--- /dev/null'', ''+++ b/a'',
       ''@@ -0,0 +1 @@'', ''+y'', ''diff --git a/d b/d'', ''deleted file mode 100644'',
       ''--- a/d'', ''+++ /dev/null'', ''@@ -1 +0,0 @@'', ''-x''] = [''a'', ''d'']" by code_simp
  ultimately have bp: "header_paths (splitlines boundary_diff) = [''a'', ''d'']"
    by (simp only:)
  have "distinct (map path_of [''a'', ''d''])" by code_simp
  with bp have bd: "distinct (map path_of (header_paths (splitlines boundary_diff)))"
    by (simp only:)
  have bi: "result_items (get_diff (env_of []) (client_of ''old'' boundary_diff)) = Inr ?bl"
    by code_simp
  from changelist_items_distinct
    [OF p_changelist_client_of diff_content_client_of enumerates_env_of,
      of "[]" "''old''" boundary_diff] bd
  obtain bl b' where bg: "get_diff (env_of []) (client_of ''old'' boundary_diff) = Inr (bl, b')"
    and bf: "distinct (map filepath bl)"
    by blast
  from bi bg have "bl = ?bl" by (simp add: result_items_def)
  with bf have f: "distinct (map filepath ?bl)" by simp
  from d c have dc: "distinct ?cl" by (simp only:)
  from hp i dc bp bi f show ?thesis by (simp only: simp_thms)
qed

text \<open>
  C6 as stated fails: for the diff in which \<open>f\<close> is added and then deleted, the change
  list holds \<open>f\<close> with the action ADDED and with the action DELETED.
\<close>

theorem path_with_two_actions_counterexample:
  "result_items (get_diff (env_of []) (client_of ''new'' added_deleted_diff))
     = Inr [\<lparr>filepath = Path [] [''f''], action = ADDED\<rparr>,
            \<lparr>filepath = Path [] [''f''], action = DELETED\<rparr>]"
  by code_simp

subsection \<open>Identifiers and their filter entries\<close>



















subsection \<open>The fallback of a selection run\<close>










text \<open>
  What is raised before the \<open>try\<close> block of \<open>syscalls\<close>, by the loader of the traces or
  by the constructor of the algorithm, leaves the command; so does what a loader of \<open>cpp\<close>
  raises.
\<close>

lemma syscalls_before_try:
  "load_test_file_traces k f = Inl ex \<Longrightarrow> syscalls k opts f s = Inl ex"
  "load_test_file_traces k f = Inr ft \<Longrightarrow> SyscallFileLevelRTS k ft (opt_output opts) opts = Inl ex
     \<Longrightarrow> syscalls k opts f s = Inl ex"
  by (simp_all add: syscalls_def Let_def)

lemma cpp_before_runs:
  "load_function_lookup_table k opts f1 = Inl ex \<Longrightarrow> cpp k opts f1 f2 evaluation java cli s = Inl ex"
  "load_function_lookup_table k opts f1 = Inr lt \<Longrightarrow> load_test_function_traces k f2 = Inl ex
     \<Longrightarrow> cpp k opts f1 f2 evaluation java cli s = Inl ex"
  by (simp_all add: cpp_def)



end
